theory Spec2Isabelle
  imports Main "HOL-Library.AList"
begin

section \<open>JavaScript numbers and the built-ins the engine calls\<close>

text \<open>
  \<^verbatim>\<open>src/PerformanceCounters.js\<close> keeps all its counters in JavaScript Numbers. The model
  takes the hook arguments (durations, row counts, latency probes) to be integers and
  represents every integer-valued Number by an \<open>int\<close>. Addition, subtraction,
  \<^verbatim>\<open>Math.max\<close> and \<^verbatim>\<open>Math.min\<close> of such values are exact as long as the magnitudes
  stay below \<open>2^53\<close>, which is the range this development is about.

  Two values that are not integers occur in the source:
  \<^item> \<^verbatim>\<open>this._nLatencyMilliseconds\<close> is \<^verbatim>\<open>null\<close> until the first \<^verbatim>\<open>setLatency\<close>: an
    \<open>int option\<close>;
  \<^item> the quotient \<^verbatim>\<open>total / count\<close>, which is a fraction, is handed to \<^verbatim>\<open>parseInt\<close>
    at once. \<^verbatim>\<open>parseInt\<close> expects a string, so the Number is first printed
    (ECMAScript \<^verbatim>\<open>Number::toString\<close>) and the leading decimal digits of the text are
    read back. The result is the value stored in the \<^verbatim>\<open>...Average\<close> fields; it can be
    \<^verbatim>\<open>NaN\<close> (division by zero), hence the type \<open>jsnum\<close> of these two fields.
\<close>

datatype jsnum = Num int | NaN

text \<open>
  \<^verbatim>\<open>x - null\<close>: the subtraction operator converts its operands with \<^verbatim>\<open>ToNumber\<close>, and
  \<^verbatim>\<open>ToNumber(null)\<close> is \<open>+0\<close>.
\<close>

definition toNumber :: "int option \<Rightarrow> int" where
  "toNumber v = (case v of None \<Rightarrow> 0 | Some n \<Rightarrow> n)"

text \<open>
  The first significant decimal digit of the positive fraction \<open>a / b < 1\<close>: scale by ten
  until the integer part is not zero.
\<close>

function leadingDigit :: "nat \<Rightarrow> nat \<Rightarrow> nat" where
  "leadingDigit a b = (if a = 0 \<or> b \<le> a then a div b else leadingDigit (10 * a) b)"
  by pat_completeness auto
termination
  by (relation "measure (\<lambda>(a, b). b - a)") auto

declare leadingDigit.simps [simp del]

text \<open>
  \<^verbatim>\<open>parseInt(a / b)\<close> for integers \<open>a \<ge> 0\<close> and \<open>b > 0\<close>.
  \<^verbatim>\<open>Number::toString\<close> prints a value \<open>x\<close> with \<open>10^-6 \<le> x < 10^21\<close> in positional
  notation (\<^verbatim>\<open>"12.5"\<close>, \<^verbatim>\<open>"0.000001"\<close>), and \<^verbatim>\<open>parseInt\<close> reads the digits before the
  point: the integer part. A value \<open>0 < x < 10^-6\<close> is printed in exponent notation
  (\<^verbatim>\<open>"5e-7"\<close>, \<^verbatim>\<open>"9.99999000001e-7"\<close>), and \<^verbatim>\<open>parseInt\<close> stops at the first character that
  is not a digit (\<^verbatim>\<open>.\<close> or \<^verbatim>\<open>e\<close>): it returns the leading significant digit.
  Zero is printed \<^verbatim>\<open>"0"\<close>.

  The digit is computed here from the exact fraction. The double that JavaScript prints
  is the one nearest to the fraction, and its shortest decimal text has the same leading
  digit unless the fraction lies within one rounding step of a decimal boundary; for
  \<open>1 / 2000000\<close> the double is the one written \<^verbatim>\<open>5e-7\<close>, printed \<^verbatim>\<open>"5e-7"\<close>. Whatever
  the digit, it is between 1 and 9 (\<open>parseInt_quotient_tiny\<close> below).
\<close>

definition parseInt_fraction :: "nat \<Rightarrow> nat \<Rightarrow> nat" where
  "parseInt_fraction a b =
     (if a = 0 \<or> b \<le> 1000000 * a then a div b else leadingDigit a b)"

text \<open>
  \<^verbatim>\<open>parseInt(t / c)\<close> for integers \<open>t\<close> and \<open>c\<close>. Division by zero gives
  \<^verbatim>\<open>Infinity\<close>, \<^verbatim>\<open>-Infinity\<close> or \<^verbatim>\<open>NaN\<close>, none of which starts with a digit:
  \<^verbatim>\<open>parseInt\<close> returns \<^verbatim>\<open>NaN\<close>. A negative quotient is printed with a minus sign,
  which \<^verbatim>\<open>parseInt\<close> reads and applies to the digits that follow.
\<close>

definition parseInt_quotient :: "int \<Rightarrow> int \<Rightarrow> jsnum" where
  "parseInt_quotient t c =
     (if c = 0 then NaN
      else Num (sgn t * sgn c * int (parseInt_fraction (nat \<bar>t\<bar>) (nat \<bar>c\<bar>))))"

section \<open>The engine state\<close>

text \<open>
  The object literal created by \<^verbatim>\<open>_queryMappings\<close>, one per canonical query.
\<close>

record metrics_record =
  successCount :: int
  errorCount :: int
  successMillisecondsTotal :: int
  errorMillisecondsTotal :: int
  successMillisecondsAverage :: jsnum
  errorMillisecondsAverage :: jsnum
  fetchedRows :: int
  affectedRows :: int
  changedRows :: int

text \<open>
  The three fields of the class. A JavaScript \<^verbatim>\<open>Map\<close> keeps its keys in insertion order
  and holds each key once: an association list, read with \<open>map_of\<close> (\<^verbatim>\<open>Map.get\<close>) and
  written with \<open>AList.update\<close> (\<^verbatim>\<open>Map.set\<close>: an existing key keeps its place, a new
  key goes to the end).
\<close>

record PerformanceCounters =
  mapQueryToMetrics :: "(string \<times> metrics_record) list"
  nCurrentlyRunningQueries :: int
  nLatencyMilliseconds :: "int option"

definition constructor :: PerformanceCounters where
  "constructor =
     \<lparr>mapQueryToMetrics = [], nCurrentlyRunningQueries = 0, nLatencyMilliseconds = None\<rparr>"

section \<open>The hooks\<close>

definition setLatency :: "int \<Rightarrow> bool \<Rightarrow> PerformanceCounters \<Rightarrow> PerformanceCounters" where
  "setLatency nMilliseconds bReset this =
     (case nLatencyMilliseconds this of
        None \<Rightarrow> this\<lparr>nLatencyMilliseconds := Some nMilliseconds\<rparr>
      | Some nCurrent \<Rightarrow>
          if bReset then this\<lparr>nLatencyMilliseconds := Some nMilliseconds\<rparr>
          else this\<lparr>nLatencyMilliseconds := Some (min nCurrent nMilliseconds)\<rparr>)"

text \<open>
  \<^verbatim>\<open>onQuery\<close>, \<^verbatim>\<open>onResult\<close> and \<^verbatim>\<open>onError\<close> are declared \<^verbatim>\<open>async\<close> but contain no
  \<^verbatim>\<open>await\<close>: the whole body runs before the call returns its promise, so each hook is a
  function from the state before to the state after.
\<close>

definition onQuery :: "PerformanceCounters \<Rightarrow> PerformanceCounters" where
  "onQuery this = this\<lparr>nCurrentlyRunningQueries := nCurrentlyRunningQueries this + 1\<rparr>"

definition newMetrics :: metrics_record where
  "newMetrics =
     \<lparr>successCount = 0, errorCount = 0,
      successMillisecondsTotal = 0, errorMillisecondsTotal = 0,
      successMillisecondsAverage = Num 0, errorMillisecondsAverage = Num 0,
      fetchedRows = 0, affectedRows = 0, changedRows = 0\<rparr>"

text \<open>
  \<^verbatim>\<open>_queryMappings\<close>: get or create. An object is always truthy, so \<^verbatim>\<open>!objMetrics\<close>
  holds exactly when the key is absent. The source returns a reference to the stored
  object; the model returns its value, and the caller writes the changed record back
  under the same key.
\<close>

definition queryMappings ::
  "string \<Rightarrow> PerformanceCounters \<Rightarrow> metrics_record \<times> PerformanceCounters" where
  "queryMappings strQuery this =
     (case map_of (mapQueryToMetrics this) strQuery of
        Some objMetrics \<Rightarrow> (objMetrics, this)
      | None \<Rightarrow>
          (newMetrics,
           this\<lparr>mapQueryToMetrics :=
                  AList.update strQuery newMetrics (mapQueryToMetrics this)\<rparr>))"

text \<open>
  The expression on the first line of both completion hooks:
  \<^verbatim>\<open>Math.max(0, nDurationMilliseconds - this._nLatencyMilliseconds)\<close>.
\<close>

definition adjustedDuration :: "PerformanceCounters \<Rightarrow> int \<Rightarrow> int" where
  "adjustedDuration this nDurationMilliseconds =
     max 0 (nDurationMilliseconds - toNumber (nLatencyMilliseconds this))"

text \<open>
  The query normaliser \<^verbatim>\<open>unparametrize_sql_query\<close> is an external package; the hooks take
  it as the parameter \<open>unparametrize\<close>, standing for
  \<^verbatim>\<open>q => unparametrize_sql_query(q, {bReduceEnumsToOneElement: true})\<close>.
  \<^verbatim>\<open>parseInt\<close> of an integer row count prints and reads back the same integer.
  An argument left out takes its default, \<open>0\<close>.
\<close>

definition onResult ::
  "(string \<Rightarrow> string) \<Rightarrow> string \<Rightarrow> int \<Rightarrow> int \<Rightarrow> int \<Rightarrow> int \<Rightarrow>
   PerformanceCounters \<Rightarrow> PerformanceCounters" where
  "onResult unparametrize strQuery nDurationMilliseconds nFetchedRows nAffectedRows
     nChangedRows this =
     (let nDuration = adjustedDuration this nDurationMilliseconds;
          strKey = unparametrize strQuery;
          this1 = this\<lparr>nCurrentlyRunningQueries :=
                         max 0 (nCurrentlyRunningQueries this - 1)\<rparr>;
          (objMetrics, this2) = queryMappings strKey this1;
          m1 = objMetrics\<lparr>successCount := successCount objMetrics + 1\<rparr>;
          m2 = m1\<lparr>successMillisecondsTotal := successMillisecondsTotal m1 + nDuration\<rparr>;
          m3 = m2\<lparr>successMillisecondsAverage :=
                     parseInt_quotient (successMillisecondsTotal m2) (successCount m2)\<rparr>;
          m4 = m3\<lparr>fetchedRows := fetchedRows m3 + nFetchedRows\<rparr>;
          m5 = m4\<lparr>affectedRows := affectedRows m4 + nAffectedRows\<rparr>;
          m6 = m5\<lparr>changedRows := changedRows m5 + nChangedRows\<rparr>
      in this2\<lparr>mapQueryToMetrics := AList.update strKey m6 (mapQueryToMetrics this2)\<rparr>)"

definition onError ::
  "(string \<Rightarrow> string) \<Rightarrow> string \<Rightarrow> int \<Rightarrow> 'e \<Rightarrow>
   PerformanceCounters \<Rightarrow> PerformanceCounters" where
  "onError unparametrize strQuery nDurationMilliseconds error this =
     (let nDuration = adjustedDuration this nDurationMilliseconds;
          strKey = unparametrize strQuery;
          this1 = this\<lparr>nCurrentlyRunningQueries :=
                         max 0 (nCurrentlyRunningQueries this - 1)\<rparr>;
          (objMetrics, this2) = queryMappings strKey this1;
          m1 = objMetrics\<lparr>errorCount := errorCount objMetrics + 1\<rparr>;
          m2 = m1\<lparr>errorMillisecondsTotal := errorMillisecondsTotal m1 + nDuration\<rparr>;
          m3 = m2\<lparr>errorMillisecondsAverage :=
                     parseInt_quotient (errorMillisecondsTotal m2) (errorCount m2)\<rparr>
      in this2\<lparr>mapQueryToMetrics := AList.update strKey m3 (mapQueryToMetrics this2)\<rparr>)"

definition clear :: "PerformanceCounters \<Rightarrow> PerformanceCounters" where
  "clear this = this\<lparr>mapQueryToMetrics := []\<rparr>"

subsection \<open>The getters\<close>

definition metrics :: "PerformanceCounters \<Rightarrow> (string \<times> metrics_record) list" where
  "metrics this = mapQueryToMetrics this"

text \<open>
  \<^verbatim>\<open>metricsAsObject\<close> copies the map into a fresh object, key by key. A plain object is
  a finite map from property names to values.
\<close>

definition metricsAsObject :: "PerformanceCounters \<Rightarrow> (string \<rightharpoonup> metrics_record)" where
  "metricsAsObject this =
     fold (\<lambda>strQuery objMetrics.
             objMetrics(strQuery := map_of (mapQueryToMetrics this) strQuery))
          (map fst (mapQueryToMetrics this)) Map.empty"

definition runningQueriesCount :: "PerformanceCounters \<Rightarrow> int" where
  "runningQueriesCount this = nCurrentlyRunningQueries this"

section \<open>Sequences of hook calls\<close>

datatype 'e call =
    SetLatency int bool
  | OnQuery
  | OnResult string int int int int
  | OnError string int 'e
  | Clear

fun step :: "(string \<Rightarrow> string) \<Rightarrow> 'e call \<Rightarrow> PerformanceCounters \<Rightarrow> PerformanceCounters" where
  "step unparametrize (SetLatency nMilliseconds bReset) this =
     setLatency nMilliseconds bReset this"
| "step unparametrize OnQuery this = onQuery this"
| "step unparametrize (OnResult strQuery nDuration nFetched nAffected nChanged) this =
     onResult unparametrize strQuery nDuration nFetched nAffected nChanged this"
| "step unparametrize (OnError strQuery nDuration error) this =
     onError unparametrize strQuery nDuration error this"
| "step unparametrize Clear this = clear this"

text \<open>The state after a sequence of calls on a freshly constructed engine.\<close>

definition run :: "(string \<Rightarrow> string) \<Rightarrow> 'e call list \<Rightarrow> PerformanceCounters" where
  "run unparametrize calls = fold (step unparametrize) calls constructor"

section \<open>Notions used to state the properties\<close>

text \<open>
  The record a completion hook starts from: the stored one, or the fresh one that
  \<^verbatim>\<open>_queryMappings\<close> creates when the key is absent.
\<close>

definition getOrNew :: "PerformanceCounters \<Rightarrow> string \<Rightarrow> metrics_record" where
  "getOrNew this strKey =
     (case map_of (mapQueryToMetrics this) strKey of
        None \<Rightarrow> newMetrics
      | Some objMetrics \<Rightarrow> objMetrics)"

text \<open>
  Both averages of a record are what the hooks compute from the record's own totals and
  counts (and the initial 0 while a count is 0).
\<close>

definition derivedAverages :: "metrics_record \<Rightarrow> bool" where
  "derivedAverages r \<longleftrightarrow>
     successMillisecondsAverage r =
       (if successCount r = 0 then Num 0
        else parseInt_quotient (successMillisecondsTotal r) (successCount r)) \<and>
     errorMillisecondsAverage r =
       (if errorCount r = 0 then Num 0
        else parseInt_quotient (errorMillisecondsTotal r) (errorCount r))"

definition countersOk :: "metrics_record \<Rightarrow> bool" where
  "countersOk r \<longleftrightarrow>
     0 \<le> successCount r \<and> 0 \<le> errorCount r \<and> 1 \<le> successCount r + errorCount r \<and>
     0 \<le> successMillisecondsTotal r \<and> 0 \<le> errorMillisecondsTotal r"

text \<open>
  Specification side, written from the sentence ``a record exists for a canonical key
  if and only if at least one success or error has been recorded for it since the last
  clear'': the canonical keys observed by a completion hook since the most recent
  \<^verbatim>\<open>clear\<close>, or since construction when there was none.
\<close>

fun observe :: "(string \<Rightarrow> string) \<Rightarrow> 'e call \<Rightarrow> string set \<Rightarrow> string set" where
  "observe unparametrize (OnResult strQuery nDuration nFetched nAffected nChanged) keys =
     insert (unparametrize strQuery) keys"
| "observe unparametrize (OnError strQuery nDuration error) keys =
     insert (unparametrize strQuery) keys"
| "observe unparametrize Clear keys = {}"
| "observe unparametrize (SetLatency nMilliseconds bReset) keys = keys"
| "observe unparametrize OnQuery keys = keys"

definition keysSinceClear :: "(string \<Rightarrow> string) \<Rightarrow> 'e call list \<Rightarrow> string set" where
  "keysSinceClear unparametrize calls = fold (observe unparametrize) calls {}"

section \<open>What each hook does to the three fields\<close>

lemma onResult_running:
  "nCurrentlyRunningQueries (onResult N q d f a c s) = max 0 (nCurrentlyRunningQueries s - 1)"
  by (simp add: onResult_def queryMappings_def Let_def split: option.splits)

lemma onResult_latency:
  "nLatencyMilliseconds (onResult N q d f a c s) = nLatencyMilliseconds s"
  by (simp add: onResult_def queryMappings_def Let_def split: option.splits)

lemma onError_running:
  "nCurrentlyRunningQueries (onError N q d e s) = max 0 (nCurrentlyRunningQueries s - 1)"
  by (simp add: onError_def queryMappings_def Let_def split: option.splits)

lemma onError_latency:
  "nLatencyMilliseconds (onError N q d e s) = nLatencyMilliseconds s"
  by (simp add: onError_def queryMappings_def Let_def split: option.splits)

lemma onResult_store:
  "map_of (mapQueryToMetrics (onResult N q d f a c s)) =
     (map_of (mapQueryToMetrics s))(N q \<mapsto>
        (getOrNew s (N q))\<lparr>
           successCount := successCount (getOrNew s (N q)) + 1,
           successMillisecondsTotal :=
             successMillisecondsTotal (getOrNew s (N q)) + adjustedDuration s d,
           successMillisecondsAverage :=
             parseInt_quotient
               (successMillisecondsTotal (getOrNew s (N q)) + adjustedDuration s d)
               (successCount (getOrNew s (N q)) + 1),
           fetchedRows := fetchedRows (getOrNew s (N q)) + f,
           affectedRows := affectedRows (getOrNew s (N q)) + a,
           changedRows := changedRows (getOrNew s (N q)) + c\<rparr>)"
  by (simp add: onResult_def queryMappings_def getOrNew_def adjustedDuration_def Let_def
      update_conv' split: option.splits)

lemma onError_store:
  "map_of (mapQueryToMetrics (onError N q d e s)) =
     (map_of (mapQueryToMetrics s))(N q \<mapsto>
        (getOrNew s (N q))\<lparr>
           errorCount := errorCount (getOrNew s (N q)) + 1,
           errorMillisecondsTotal :=
             errorMillisecondsTotal (getOrNew s (N q)) + adjustedDuration s d,
           errorMillisecondsAverage :=
             parseInt_quotient
               (errorMillisecondsTotal (getOrNew s (N q)) + adjustedDuration s d)
               (errorCount (getOrNew s (N q)) + 1)\<rparr>)"
  by (simp add: onError_def queryMappings_def getOrNew_def adjustedDuration_def Let_def
      update_conv' split: option.splits)

lemma adjustedDuration_nonneg: "0 \<le> adjustedDuration s d"
  by (simp add: adjustedDuration_def)

lemma fold_copy:
  "fold (\<lambda>k obj. obj(k := m k)) ks obj0 = (\<lambda>k. if k \<in> set ks then m k else obj0 k)"
  by (induction ks arbitrary: obj0) auto

lemma metricsAsObject_eq: "metricsAsObject s = map_of (mapQueryToMetrics s)"
proof
  fix k
  show "metricsAsObject s k = map_of (mapQueryToMetrics s) k"
  proof (cases "k \<in> fst ` set (mapQueryToMetrics s)")
    case True
    then show ?thesis by (simp add: metricsAsObject_def fold_copy)
  next
    case False
    then have "map_of (mapQueryToMetrics s) k = None" by (simp add: map_of_eq_None_iff)
    with False show ?thesis by (simp add: metricsAsObject_def fold_copy)
  qed
qed

section \<open>Invariants of every state reached from the constructor\<close>

lemma run_Nil: "run N [] = constructor"
  by (simp add: run_def)

lemma run_snoc: "run N (calls @ [c]) = step N c (run N calls)"
  by (simp add: run_def)

lemma running_nonneg: "0 \<le> nCurrentlyRunningQueries (run N calls)"
proof (induction calls rule: rev_induct)
  case Nil
  show ?case by (simp add: run_Nil constructor_def)
next
  case (snoc c calls)
  then show ?case
    by (cases c) (simp_all add: run_snoc setLatency_def onQuery_def onResult_running
        onError_running clear_def split: option.splits)
qed

lemma step_distinct:
  "distinct (map fst (mapQueryToMetrics s)) \<Longrightarrow>
   distinct (map fst (mapQueryToMetrics (step N c s)))"
  by (cases c)
     (simp_all add: setLatency_def onQuery_def onResult_def onError_def clear_def
        queryMappings_def Let_def distinct_update split: option.splits)

lemma run_distinct: "distinct (map fst (mapQueryToMetrics (run N calls)))"
proof (induction calls rule: rev_induct)
  case Nil
  show ?case by (simp add: run_Nil constructor_def)
next
  case (snoc c calls)
  then show ?case by (simp add: run_snoc step_distinct)
qed

lemma getOrNew_nonneg:
  assumes "\<forall>r. map_of (mapQueryToMetrics s) k = Some r \<longrightarrow> countersOk r"
  shows "0 \<le> successCount (getOrNew s k) \<and> 0 \<le> errorCount (getOrNew s k) \<and>
         0 \<le> successMillisecondsTotal (getOrNew s k) \<and>
         0 \<le> errorMillisecondsTotal (getOrNew s k)"
  using assms
  by (auto simp: getOrNew_def newMetrics_def countersOk_def split: option.splits)

lemma step_countersOk:
  assumes "\<forall>k r. map_of (mapQueryToMetrics s) k = Some r \<longrightarrow> countersOk r"
  shows "\<forall>k r. map_of (mapQueryToMetrics (step N c s)) k = Some r \<longrightarrow> countersOk r"
proof (cases c)
  case (SetLatency ms reset)
  then show ?thesis using assms by (simp add: setLatency_def split: option.splits)
next
  case OnQuery
  then show ?thesis using assms by (simp add: onQuery_def)
next
  case (OnResult q d f a ch)
  have g: "0 \<le> successCount (getOrNew s (N q)) \<and> 0 \<le> errorCount (getOrNew s (N q)) \<and>
           0 \<le> successMillisecondsTotal (getOrNew s (N q)) \<and>
           0 \<le> errorMillisecondsTotal (getOrNew s (N q))"
    using assms by (intro getOrNew_nonneg) simp
  show ?thesis
    using assms g adjustedDuration_nonneg[of s d]
    by (auto simp: OnResult onResult_store countersOk_def)
next
  case (OnError q d e)
  have g: "0 \<le> successCount (getOrNew s (N q)) \<and> 0 \<le> errorCount (getOrNew s (N q)) \<and>
           0 \<le> successMillisecondsTotal (getOrNew s (N q)) \<and>
           0 \<le> errorMillisecondsTotal (getOrNew s (N q))"
    using assms by (intro getOrNew_nonneg) simp
  show ?thesis
    using assms g adjustedDuration_nonneg[of s d]
    by (auto simp: OnError onError_store countersOk_def)
next
  case Clear
  then show ?thesis by (simp add: clear_def)
qed

lemma run_countersOk:
  "map_of (mapQueryToMetrics (run N calls)) k = Some r \<Longrightarrow> countersOk r"
proof (induction calls arbitrary: k r rule: rev_induct)
  case Nil
  then show ?case by (simp add: run_Nil constructor_def)
next
  case (snoc c calls)
  have "\<forall>k r. map_of (mapQueryToMetrics (run N calls)) k = Some r \<longrightarrow> countersOk r"
    using snoc.IH by blast
  from step_countersOk[OF this, of N c] snoc.prems show ?case
    by (simp add: run_snoc)
qed

lemma getOrNew_derived:
  assumes "\<forall>r. map_of (mapQueryToMetrics s) k = Some r \<longrightarrow> derivedAverages r \<and> countersOk r"
  shows "derivedAverages (getOrNew s k) \<and> 0 \<le> successCount (getOrNew s k) \<and>
         0 \<le> errorCount (getOrNew s k)"
  using assms
  by (auto simp: getOrNew_def newMetrics_def derivedAverages_def countersOk_def
      split: option.splits)

lemma step_derived:
  assumes "\<forall>k r. map_of (mapQueryToMetrics s) k = Some r \<longrightarrow>
             derivedAverages r \<and> countersOk r"
  shows "\<forall>k r. map_of (mapQueryToMetrics (step N c s)) k = Some r \<longrightarrow> derivedAverages r"
proof (cases c)
  case (SetLatency ms reset)
  then show ?thesis using assms by (simp add: setLatency_def split: option.splits)
next
  case OnQuery
  then show ?thesis using assms by (simp add: onQuery_def)
next
  case (OnResult q d f a ch)
  have g: "derivedAverages (getOrNew s (N q)) \<and> 0 \<le> successCount (getOrNew s (N q)) \<and>
           0 \<le> errorCount (getOrNew s (N q))"
    using assms by (intro getOrNew_derived) simp
  show ?thesis
    using assms g by (auto simp: OnResult onResult_store derivedAverages_def)
next
  case (OnError q d e)
  have g: "derivedAverages (getOrNew s (N q)) \<and> 0 \<le> successCount (getOrNew s (N q)) \<and>
           0 \<le> errorCount (getOrNew s (N q))"
    using assms by (intro getOrNew_derived) simp
  show ?thesis
    using assms g by (auto simp: OnError onError_store derivedAverages_def)
next
  case Clear
  then show ?thesis by (simp add: clear_def)
qed

text \<open>
  The averages are never stored independently of their inputs: in every reachable state
  each one is the value \<^verbatim>\<open>parseInt(total / count)\<close> of the record's own total and count.
\<close>

lemma run_derived:
  "map_of (mapQueryToMetrics (run N calls)) k = Some r \<Longrightarrow> derivedAverages r"
proof (induction calls arbitrary: k r rule: rev_induct)
  case Nil
  then show ?case by (simp add: run_Nil constructor_def)
next
  case (snoc c calls)
  have "\<forall>k r. map_of (mapQueryToMetrics (run N calls)) k = Some r \<longrightarrow>
          derivedAverages r \<and> countersOk r"
    using snoc.IH run_countersOk by blast
  from step_derived[OF this, of N c] snoc.prems show ?case
    by (simp add: run_snoc)
qed

lemma keysSinceClear_snoc:
  "keysSinceClear N (calls @ [c]) = observe N c (keysSinceClear N calls)"
  by (simp add: keysSinceClear_def)

lemma keys_run:
  "(map_of (mapQueryToMetrics (run N calls)) k \<noteq> None) = (k \<in> keysSinceClear N calls)"
proof (induction calls arbitrary: k rule: rev_induct)
  case Nil
  show ?case by (simp add: run_Nil constructor_def keysSinceClear_def)
next
  case (snoc c calls)
  show ?case
  proof (cases c)
    case (SetLatency ms reset)
    then show ?thesis using snoc.IH[of k]
      by (simp add: run_snoc keysSinceClear_snoc setLatency_def split: option.splits)
  next
    case OnQuery
    then show ?thesis using snoc.IH[of k]
      by (simp add: run_snoc keysSinceClear_snoc onQuery_def)
  next
    case (OnResult q d f a ch)
    then show ?thesis using snoc.IH[of k]
      by (simp add: run_snoc keysSinceClear_snoc onResult_store)
  next
    case (OnError q d e)
    then show ?thesis using snoc.IH[of k]
      by (simp add: run_snoc keysSinceClear_snoc onError_store)
  next
    case Clear
    then show ?thesis
      by (simp add: run_snoc keysSinceClear_snoc clear_def)
  qed
qed

lemma step_monotone:
  assumes "c \<noteq> Clear" and "map_of (mapQueryToMetrics s) k = Some r"
  shows "\<exists>r'. map_of (mapQueryToMetrics (step N c s)) k = Some r' \<and>
              successCount r \<le> successCount r' \<and> errorCount r \<le> errorCount r'"
  using assms
  by (cases c)
     (auto simp: setLatency_def onQuery_def onResult_store onError_store getOrNew_def
        split: option.splits)

section \<open>The stored averages\<close>

lemma leadingDigit_range:
  "0 < a \<Longrightarrow> a < b \<Longrightarrow> 1 \<le> leadingDigit a b \<and> leadingDigit a b \<le> 9"
proof (induction a b rule: leadingDigit.induct)
  case (1 a b)
  show ?case
  proof (cases "b \<le> 10 * a")
    case True
    have "leadingDigit a b = leadingDigit (10 * a) b"
      using "1.prems" by (subst leadingDigit.simps) simp
    also have "\<dots> = (10 * a) div b"
      using True "1.prems" by (subst leadingDigit.simps) simp
    finally have eq: "leadingDigit a b = (10 * a) div b" .
    have lo: "1 \<le> (10 * a) div b"
      using True "1.prems" by (simp add: Suc_le_eq div_greater_zero_iff)
    have "10 * a < 10 * b" using "1.prems" by simp
    then have "(10 * a) div b < 10"
      using "1.prems" by (simp add: less_mult_imp_div_less mult.commute)
    with lo eq show ?thesis by simp
  next
    case False
    have eq: "leadingDigit a b = leadingDigit (10 * a) b"
      using "1.prems" by (subst leadingDigit.simps) simp
    have "1 \<le> leadingDigit (10 * a) b \<and> leadingDigit (10 * a) b \<le> 9"
      using "1.IH" "1.prems" False by simp
    with eq show ?thesis by simp
  qed
qed

text \<open>
  From one millionth upwards (and at zero) \<^verbatim>\<open>parseInt(t / c)\<close> is the floor of the
  quotient.
\<close>

lemma parseInt_quotient_floor:
  assumes "0 \<le> t" and "0 < c" and "t = 0 \<or> c \<le> 1000000 * t"
  shows "parseInt_quotient t c = Num (t div c)"
proof (cases "t = 0")
  case True
  then show ?thesis using assms by (simp add: parseInt_quotient_def)
next
  case False
  with assms have le: "c \<le> 1000000 * t" and pos: "0 < t" by auto
  then have "nat c \<le> 1000000 * nat t" using assms by linarith
  then have "parseInt_fraction (nat t) (nat c) = nat t div nat c"
    by (simp add: parseInt_fraction_def)
  moreover have "int (nat t div nat c) = t div c"
    using assms pos by (simp add: zdiv_int)
  ultimately show ?thesis
    using assms pos by (simp add: parseInt_quotient_def)
qed

text \<open>
  Below one millionth it is a digit from 1 to 9, while the floor is 0.
\<close>

lemma parseInt_quotient_tiny:
  assumes "0 < t" and "1000000 * t < c"
  shows "\<exists>d. parseInt_quotient t c = Num d \<and> 1 \<le> d \<and> d \<le> 9 \<and> t div c = 0"
proof -
  have c: "0 < c" "t < c" using assms by linarith+
  have n: "\<not> nat c \<le> 1000000 * nat t" "0 < nat t" "nat t < nat c"
    using assms c by linarith+
  then have "parseInt_fraction (nat t) (nat c) = leadingDigit (nat t) (nat c)"
    by (simp add: parseInt_fraction_def)
  moreover have "1 \<le> leadingDigit (nat t) (nat c) \<and> leadingDigit (nat t) (nat c) \<le> 9"
    using n(2,3) by (rule leadingDigit_range)
  ultimately show ?thesis
    using assms c by (simp add: parseInt_quotient_def)
qed

text \<open>
  In a reachable state the stored average is the floor of total over count (0 when the
  count is 0) whenever the total is 0 or the count is at most a million times the total.
\<close>

lemma run_average_floor:
  assumes "map_of (mapQueryToMetrics (run N calls)) k = Some r"
  shows "(successMillisecondsTotal r = 0 \<or>
          successCount r \<le> 1000000 * successMillisecondsTotal r \<longrightarrow>
            successMillisecondsAverage r =
              Num (successMillisecondsTotal r div successCount r)) \<and>
         (errorMillisecondsTotal r = 0 \<or>
          errorCount r \<le> 1000000 * errorMillisecondsTotal r \<longrightarrow>
            errorMillisecondsAverage r =
              Num (errorMillisecondsTotal r div errorCount r))"
proof -
  have d: "derivedAverages r" and ok: "countersOk r"
    using assms by (rule run_derived, rule run_countersOk)
  show ?thesis
  proof (intro conjI impI)
    assume h: "successMillisecondsTotal r = 0 \<or>
               successCount r \<le> 1000000 * successMillisecondsTotal r"
    show "successMillisecondsAverage r = Num (successMillisecondsTotal r div successCount r)"
    proof (cases "successCount r = 0")
      case True
      with d show ?thesis by (simp add: derivedAverages_def)
    next
      case False
      with ok have "0 < successCount r" "0 \<le> successMillisecondsTotal r"
        by (simp_all add: countersOk_def)
      with h have "parseInt_quotient (successMillisecondsTotal r) (successCount r) =
          Num (successMillisecondsTotal r div successCount r)"
        by (intro parseInt_quotient_floor) simp_all
      with d False show ?thesis by (simp add: derivedAverages_def)
    qed
  next
    assume h: "errorMillisecondsTotal r = 0 \<or>
               errorCount r \<le> 1000000 * errorMillisecondsTotal r"
    show "errorMillisecondsAverage r = Num (errorMillisecondsTotal r div errorCount r)"
    proof (cases "errorCount r = 0")
      case True
      with d show ?thesis by (simp add: derivedAverages_def)
    next
      case False
      with ok have "0 < errorCount r" "0 \<le> errorMillisecondsTotal r"
        by (simp_all add: countersOk_def)
      with h have "parseInt_quotient (errorMillisecondsTotal r) (errorCount r) =
          Num (errorMillisecondsTotal r div errorCount r)"
        by (intro parseInt_quotient_floor) simp_all
      with d False show ?thesis by (simp add: derivedAverages_def)
    qed
  qed
qed

text \<open>
  Repeating \<^verbatim>\<open>onResult(q, 0)\<close> on an uncalibrated engine that already holds a record for
  the key: the count grows by one per call, the total stays, the average is recomputed.
\<close>

lemma repeat_onResult_zero:
  assumes "nLatencyMilliseconds s = None"
    and "map_of (mapQueryToMetrics s) (N q) = Some r"
  shows "map_of (mapQueryToMetrics (fold (step N) (replicate n (OnResult q 0 0 0 0)) s)) (N q) =
           Some (if n = 0 then r
                 else r\<lparr>successCount := successCount r + int n,
                        successMillisecondsAverage :=
                          parseInt_quotient (successMillisecondsTotal r)
                            (successCount r + int n)\<rparr>)
         \<and> nLatencyMilliseconds (fold (step N) (replicate n (OnResult q 0 0 0 0)) s) = None"
  using assms
proof (induction n arbitrary: s r)
  case 0
  then show ?case by simp
next
  case (Suc n)
  let ?s1 = "onResult N q 0 0 0 0 s"
  let ?r1 = "r\<lparr>successCount := successCount r + 1,
                successMillisecondsAverage :=
                  parseInt_quotient (successMillisecondsTotal r) (successCount r + 1)\<rparr>"
  have lat: "nLatencyMilliseconds ?s1 = None"
    using Suc.prems by (simp add: onResult_latency)
  have rec: "map_of (mapQueryToMetrics ?s1) (N q) = Some ?r1"
    using Suc.prems
    by (simp add: onResult_store getOrNew_def adjustedDuration_def toNumber_def)
  from Suc.IH[OF lat rec] show ?case
    by (simp add: add.commute add.left_commute)
qed

text \<open>
  C1 (after every mutation each stored average equals the floor of its total over its
  count, for non-negative integer durations). The source computes the average as
  \<^verbatim>\<open>parseInt(total / count)\<close>, which is that floor only while the quotient is 0 or at
  least one millionth (\<open>run_average_floor\<close>). On a fresh engine, one
  \<^verbatim>\<open>onResult(q, 1)\<close> followed by 1999999 calls \<^verbatim>\<open>onResult(q, 0)\<close> leaves the record of
  \<open>q\<close> with \<open>successCount = 2000000\<close> and \<open>successMillisecondsTotal = 1\<close>; the quotient
  is printed \<^verbatim>\<open>"5e-7"\<close>, and the stored \<open>successMillisecondsAverage\<close> is 5, where the
  floor of \<open>1 / 2000000\<close> is 0.
\<close>

theorem average_is_not_floor_after_two_million_results:
  "map_of (metrics (run N ((OnResult q 1 0 0 0 :: 'e call) #
                            replicate 1999999 (OnResult q 0 0 0 0)))) (N q) =
     Some \<lparr>successCount = 2000000, errorCount = 0,
           successMillisecondsTotal = 1, errorMillisecondsTotal = 0,
           successMillisecondsAverage = Num 5, errorMillisecondsAverage = Num 0,
           fetchedRows = 0, affectedRows = 0, changedRows = 0\<rparr>
   \<and> (1::int) div 2000000 = 0"
proof -
  let ?s1 = "onResult N q 1 0 0 0 constructor"
  let ?r1 = "\<lparr>successCount = 1, errorCount = 0,
              successMillisecondsTotal = 1, errorMillisecondsTotal = 0,
              successMillisecondsAverage = Num 1, errorMillisecondsAverage = Num 0,
              fetchedRows = 0, affectedRows = 0, changedRows = 0\<rparr>"
  have lat: "nLatencyMilliseconds ?s1 = None"
    by (simp add: onResult_latency constructor_def)
  have rec: "map_of (mapQueryToMetrics ?s1) (N q) = Some ?r1"
    by (simp add: onResult_store getOrNew_def adjustedDuration_def toNumber_def constructor_def
        newMetrics_def parseInt_quotient_def parseInt_fraction_def)
  have "map_of (mapQueryToMetrics
           (fold (step N) (replicate 1999999 (OnResult q 0 0 0 0 :: 'e call)) ?s1)) (N q) =
          Some (if (1999999::nat) = 0 then ?r1
                else ?r1\<lparr>successCount := successCount ?r1 + int 1999999,
                         successMillisecondsAverage :=
                           parseInt_quotient (successMillisecondsTotal ?r1)
                             (successCount ?r1 + int 1999999)\<rparr>)
        \<and> nLatencyMilliseconds
            (fold (step N) (replicate 1999999 (OnResult q 0 0 0 0 :: 'e call)) ?s1) = None"
    using lat rec by (rule repeat_onResult_zero)
  then show ?thesis
    by (simp add: run_def metrics_def parseInt_quotient_def parseInt_fraction_def
        leadingDigit.simps)
qed

section \<open>The running-queries gauge\<close>

text \<open>
  C2: after any finite sequence of hook calls on a freshly constructed engine
  \<open>runningQueriesCount\<close> is not negative; \<open>onQuery\<close> adds 1 to it, and \<open>onResult\<close> and
  \<open>onError\<close> subtract 1 with a floor at 0.
\<close>

theorem runningQueriesCount_never_negative:
  "0 \<le> runningQueriesCount (run N calls) \<and>
   runningQueriesCount (onQuery s) = runningQueriesCount s + 1 \<and>
   runningQueriesCount (onResult N q d f a c s) = max 0 (runningQueriesCount s - 1) \<and>
   runningQueriesCount (onError N q d e s) = max 0 (runningQueriesCount s - 1)"
  by (simp add: runningQueriesCount_def running_nonneg onResult_running onError_running
      onQuery_def)

text \<open>
  C10: \<open>onQuery\<close> adds exactly 1 to the running count and leaves the metrics store (as
  a list, through the \<open>metrics\<close> getter and through \<open>metricsAsObject\<close>) and the calibrated
  latency as they were.
\<close>

theorem onQuery_changes_only_the_running_count:
  "runningQueriesCount (onQuery s) = runningQueriesCount s + 1 \<and>
   mapQueryToMetrics (onQuery s) = mapQueryToMetrics s \<and>
   metrics (onQuery s) = metrics s \<and>
   metricsAsObject (onQuery s) = metricsAsObject s \<and>
   nLatencyMilliseconds (onQuery s) = nLatencyMilliseconds s"
  by (simp add: onQuery_def runningQueriesCount_def metrics_def metricsAsObject_def)

section \<open>Clearing and calibrating\<close>

text \<open>
  C4: in every state \<open>clear\<close> empties the store, so that \<open>metrics\<close> and \<open>metricsAsObject\<close>
  are empty afterwards, and leaves \<open>runningQueriesCount\<close> and the calibrated latency
  unchanged.
\<close>

theorem clear_empties_only_the_store:
  "metrics (clear s) = [] \<and> metricsAsObject (clear s) = Map.empty \<and>
   runningQueriesCount (clear s) = runningQueriesCount s \<and>
   nLatencyMilliseconds (clear s) = nLatencyMilliseconds s"
  by (simp add: clear_def metrics_def metricsAsObject_def runningQueriesCount_def)

text \<open>
  C5: \<open>setLatency ms reset\<close> stores \<open>ms\<close> when no calibration is set yet or \<open>reset\<close> is
  true, and the minimum of the current value and \<open>ms\<close> otherwise. On a fresh engine,
  \<open>setLatency 50\<close> then \<open>setLatency 80\<close> without reset leaves 50, and \<open>setLatency 80\<close>
  with reset gives 80.
\<close>

theorem setLatency_keeps_the_minimum_unless_reset:
  "(nLatencyMilliseconds s = None \<or> bReset \<longrightarrow>
      nLatencyMilliseconds (setLatency ms bReset s) = Some ms) \<and>
   (\<forall>cur. nLatencyMilliseconds s = Some cur \<and> \<not> bReset \<longrightarrow>
      nLatencyMilliseconds (setLatency ms bReset s) = Some (min cur ms)) \<and>
   nLatencyMilliseconds (setLatency 80 False (setLatency 50 False constructor)) = Some 50 \<and>
   nLatencyMilliseconds (setLatency 80 True (setLatency 50 False constructor)) = Some 80"
  by (auto simp: setLatency_def constructor_def split: option.splits)

theorem setLatency_keeps_the_minimum_unless_reset_witness:
  "nLatencyMilliseconds constructor = None \<and>
   nLatencyMilliseconds (setLatency 50 False constructor) = Some 50 \<and>
   nLatencyMilliseconds (setLatency 80 False (setLatency 50 False constructor)) =
     Some (min 50 80)"
  using setLatency_keeps_the_minimum_unless_reset [of constructor False 50]
    setLatency_keeps_the_minimum_unless_reset [of "setLatency 50 False constructor" False 80]
  by (simp add: constructor_def)

text \<open>
  C6: while no calibration has been set, the duration that \<open>onResult\<close> and \<open>onError\<close> add
  to the totals is \<open>max 0 durationMs\<close>: the absent offset counts as 0. (The source
  subtracts \<^verbatim>\<open>null\<close>, which the subtraction operator converts to 0.)
\<close>

theorem uncalibrated_duration_is_floored_at_zero:
  assumes "nLatencyMilliseconds s = None"
  shows "adjustedDuration s d = max 0 d \<and>
         (\<exists>r. map_of (metrics (onResult N q d f a c s)) (N q) = Some r \<and>
              successMillisecondsTotal r =
                successMillisecondsTotal (getOrNew s (N q)) + max 0 d) \<and>
         (\<exists>r. map_of (metrics (onError N q d e s)) (N q) = Some r \<and>
              errorMillisecondsTotal r =
                errorMillisecondsTotal (getOrNew s (N q)) + max 0 d)"
  using assms
  by (simp add: metrics_def onResult_store onError_store adjustedDuration_def toNumber_def)

theorem uncalibrated_duration_is_floored_at_zero_witness:
  "nLatencyMilliseconds constructor = None \<and>
   adjustedDuration constructor 100 = 100 \<and>
   metrics (onResult (\<lambda>q. q) ''SELECT a FROM t'' 100 0 0 0 constructor) =
     [(''SELECT a FROM t'',
       \<lparr>successCount = 1, errorCount = 0,
        successMillisecondsTotal = 100, errorMillisecondsTotal = 0,
        successMillisecondsAverage = Num 100, errorMillisecondsAverage = Num 0,
        fetchedRows = 0, affectedRows = 0, changedRows = 0\<rparr>)]"
  using uncalibrated_duration_is_floored_at_zero
          [of constructor 100 "\<lambda>q. q" "''SELECT a FROM t''" 0 0 0 "()"]
  by (simp add: constructor_def onResult_def queryMappings_def Let_def adjustedDuration_def
      toNumber_def newMetrics_def metrics_def parseInt_quotient_def parseInt_fraction_def)

section \<open>The end-to-end scenario\<close>

text \<open>
  C3: with the normaliser mapping \<^verbatim>\<open>"SELECT 1 FROM table"\<close> to \<^verbatim>\<open>"SELECT ? FROM table"\<close>
  and \<^verbatim>\<open>"SELECT 1 FROM another_table"\<close> to \<^verbatim>\<open>"SELECT ? FROM another_table"\<close>, on a fresh
  engine calibrated to 50: two \<open>onQuery\<close> calls give a running count of 2; then
  \<open>onResult\<close> with duration 100 and 3 fetched rows has adjusted duration 50, gives a
  running count of 1 and the record \<open>successCount = 1\<close>, \<open>successMillisecondsTotal = 50\<close>,
  \<open>successMillisecondsAverage = 50\<close>, \<open>fetchedRows = 3\<close>; then \<open>onError\<close> with duration 53
  has adjusted duration 3, gives a running count of 0 and the record \<open>errorCount = 1\<close>,
  \<open>errorMillisecondsTotal = 3\<close>, \<open>errorMillisecondsAverage = 3\<close>.
\<close>

theorem end_to_end_scenario:
  assumes "N ''SELECT 1 FROM table'' = ''SELECT ? FROM table''"
    and "N ''SELECT 1 FROM another_table'' = ''SELECT ? FROM another_table''"
  shows "let s0 = setLatency 50 False constructor;
             s2 = onQuery (onQuery s0);
             s3 = onResult N ''SELECT 1 FROM table'' 100 3 0 0 s2;
             s4 = onError N ''SELECT 1 FROM another_table'' 53 err s3
         in runningQueriesCount s2 = 2 \<and>
            adjustedDuration s2 100 = 50 \<and>
            runningQueriesCount s3 = 1 \<and>
            metrics s3 =
              [(''SELECT ? FROM table'',
                \<lparr>successCount = 1, errorCount = 0,
                 successMillisecondsTotal = 50, errorMillisecondsTotal = 0,
                 successMillisecondsAverage = Num 50, errorMillisecondsAverage = Num 0,
                 fetchedRows = 3, affectedRows = 0, changedRows = 0\<rparr>)] \<and>
            adjustedDuration s3 53 = 3 \<and>
            runningQueriesCount s4 = 0 \<and>
            metrics s4 =
              [(''SELECT ? FROM table'',
                \<lparr>successCount = 1, errorCount = 0,
                 successMillisecondsTotal = 50, errorMillisecondsTotal = 0,
                 successMillisecondsAverage = Num 50, errorMillisecondsAverage = Num 0,
                 fetchedRows = 3, affectedRows = 0, changedRows = 0\<rparr>),
               (''SELECT ? FROM another_table'',
                \<lparr>successCount = 0, errorCount = 1,
                 successMillisecondsTotal = 0, errorMillisecondsTotal = 3,
                 successMillisecondsAverage = Num 0, errorMillisecondsAverage = Num 3,
                 fetchedRows = 0, affectedRows = 0, changedRows = 0\<rparr>)]"
  using assms
  by (simp add: Let_def setLatency_def constructor_def onQuery_def onResult_def onError_def
      queryMappings_def adjustedDuration_def toNumber_def newMetrics_def metrics_def
      runningQueriesCount_def parseInt_quotient_def parseInt_fraction_def)

theorem end_to_end_scenario_witness:
  "map (\<lambda>ch. if ch = CHR ''1'' then CHR ''?'' else ch) ''SELECT 1 FROM table'' =
     ''SELECT ? FROM table'' \<and>
   map (\<lambda>ch. if ch = CHR ''1'' then CHR ''?'' else ch) ''SELECT 1 FROM another_table'' =
     ''SELECT ? FROM another_table'' \<and>
   runningQueriesCount
     (onError (map (\<lambda>ch. if ch = CHR ''1'' then CHR ''?'' else ch))
        ''SELECT 1 FROM another_table'' 53 ()
        (onResult (map (\<lambda>ch. if ch = CHR ''1'' then CHR ''?'' else ch))
           ''SELECT 1 FROM table'' 100 3 0 0
           (onQuery (onQuery (setLatency 50 False constructor))))) = 0"
proof -
  let ?N = "map (\<lambda>ch. if ch = CHR ''1'' then CHR ''?'' else ch)"
  have h1: "?N ''SELECT 1 FROM table'' = ''SELECT ? FROM table''" by simp
  have h2: "?N ''SELECT 1 FROM another_table'' = ''SELECT ? FROM another_table''" by simp
  from end_to_end_scenario [of ?N "()", OF h1 h2] h1 h2 show ?thesis
    by (simp only: Let_def)
qed

section \<open>Which records exist, and their counters\<close>

text \<open>
  C7: after any finite sequence of hook calls on a fresh engine, the store holds a
  record for a canonical key if and only if an \<open>onResult\<close> or \<open>onError\<close> with that key
  has occurred since the most recent \<open>clear\<close> (or since construction); and every stored
  record has \<open>successCount + errorCount \<ge> 1\<close>.
\<close>

theorem record_exists_iff_observed_since_clear:
  "(map_of (metrics (run N calls)) k \<noteq> None \<longleftrightarrow> k \<in> keysSinceClear N calls) \<and>
   (\<forall>(k', r) \<in> set (metrics (run N calls)). 1 \<le> successCount r + errorCount r)"
proof
  show "map_of (metrics (run N calls)) k \<noteq> None \<longleftrightarrow> k \<in> keysSinceClear N calls"
    unfolding metrics_def by (rule keys_run)
next
  show "\<forall>(k', r) \<in> set (metrics (run N calls)). 1 \<le> successCount r + errorCount r"
  proof (clarify)
    fix k' r
    assume "(k', r) \<in> set (metrics (run N calls))"
    then have "map_of (mapQueryToMetrics (run N calls)) k' = Some r"
      using run_distinct[of N calls] by (simp add: metrics_def)
    then have "countersOk r" by (rule run_countersOk)
    then show "1 \<le> successCount r + errorCount r" by (simp add: countersOk_def)
  qed
qed

theorem record_exists_iff_observed_since_clear_witness:
  "map_of (metrics (run (\<lambda>q. q) [OnResult ''SELECT a FROM t'' 7 0 0 0, Clear,
             OnError ''SELECT b FROM u'' 4 ()])) ''SELECT b FROM u'' \<noteq> None \<and>
   ''SELECT b FROM u'' \<in> keysSinceClear (\<lambda>q. q) [OnResult ''SELECT a FROM t'' 7 0 0 0, Clear,
             OnError ''SELECT b FROM u'' 4 ()] \<and>
   ''SELECT a FROM t'' \<notin> keysSinceClear (\<lambda>q. q) [OnResult ''SELECT a FROM t'' 7 0 0 0, Clear,
             OnError ''SELECT b FROM u'' 4 ()] \<and>
   map_of (metrics (run (\<lambda>q. q) [OnResult ''SELECT a FROM t'' 7 0 0 0, Clear,
             OnError ''SELECT b FROM u'' 4 ()])) ''SELECT a FROM t'' = None \<and>
   metrics (run (\<lambda>q. q) [OnResult ''SELECT a FROM t'' 7 0 0 0, Clear,
             OnError ''SELECT b FROM u'' 4 ()]) =
     [(''SELECT b FROM u'',
       \<lparr>successCount = 0, errorCount = 1,
        successMillisecondsTotal = 0, errorMillisecondsTotal = 4,
        successMillisecondsAverage = Num 0, errorMillisecondsAverage = Num 4,
        fetchedRows = 0, affectedRows = 0, changedRows = 0\<rparr>)]"
  using record_exists_iff_observed_since_clear
          [of "\<lambda>q. q" "[OnResult ''SELECT a FROM t'' 7 0 0 0, Clear,
                         OnError ''SELECT b FROM u'' 4 ()]" "''SELECT b FROM u''"]
        record_exists_iff_observed_since_clear
          [of "\<lambda>q. q" "[OnResult ''SELECT a FROM t'' 7 0 0 0, Clear,
                         OnError ''SELECT b FROM u'' 4 ()]" "''SELECT a FROM t''"]
  by (simp add: run_def keysSinceClear_def metrics_def constructor_def onResult_def onError_def
      clear_def queryMappings_def Let_def adjustedDuration_def toNumber_def newMetrics_def
      parseInt_quotient_def parseInt_fraction_def)

text \<open>
  C8: in every state reached from a fresh engine the \<open>successCount\<close> and \<open>errorCount\<close> of
  a stored record are non-negative, and any next hook call other than \<open>clear\<close> keeps the
  record and decreases neither counter.
\<close>

theorem counts_nonnegative_and_nondecreasing:
  assumes "c \<noteq> Clear" and "map_of (metrics (run N calls)) k = Some r"
  shows "0 \<le> successCount r \<and> 0 \<le> errorCount r \<and>
         (\<exists>r'. map_of (metrics (step N c (run N calls))) k = Some r' \<and>
               successCount r \<le> successCount r' \<and> errorCount r \<le> errorCount r')"
proof -
  from assms(2) have "countersOk r"
    unfolding metrics_def by (rule run_countersOk)
  moreover have "\<exists>r'. map_of (metrics (step N c (run N calls))) k = Some r' \<and>
               successCount r \<le> successCount r' \<and> errorCount r \<le> errorCount r'"
    using assms unfolding metrics_def by (rule step_monotone)
  ultimately show ?thesis by (simp add: countersOk_def)
qed

theorem counts_nonnegative_and_nondecreasing_witness:
  "OnResult ''SELECT a FROM t'' 3 0 0 0 \<noteq> (Clear :: unit call) \<and>
   map_of (metrics (run (\<lambda>q. q) [OnResult ''SELECT a FROM t'' 5 0 0 0 :: unit call]))
      ''SELECT a FROM t'' =
     Some \<lparr>successCount = 1, errorCount = 0,
        successMillisecondsTotal = 5, errorMillisecondsTotal = 0,
        successMillisecondsAverage = Num 5, errorMillisecondsAverage = Num 0,
        fetchedRows = 0, affectedRows = 0, changedRows = 0\<rparr> \<and>
   map_of (metrics (step (\<lambda>q. q) (OnResult ''SELECT a FROM t'' 3 0 0 0 :: unit call)
       (run (\<lambda>q. q) [OnResult ''SELECT a FROM t'' 5 0 0 0 :: unit call])))
      ''SELECT a FROM t'' =
     Some \<lparr>successCount = 2, errorCount = 0,
        successMillisecondsTotal = 8, errorMillisecondsTotal = 0,
        successMillisecondsAverage = Num 4, errorMillisecondsAverage = Num 0,
        fetchedRows = 0, affectedRows = 0, changedRows = 0\<rparr>"
  using counts_nonnegative_and_nondecreasing
          [of "OnResult ''SELECT a FROM t'' 3 0 0 0 :: unit call" "\<lambda>q. q"
              "[OnResult ''SELECT a FROM t'' 5 0 0 0]" "''SELECT a FROM t''"]
  by (simp add: run_def constructor_def onResult_def queryMappings_def Let_def
      adjustedDuration_def toNumber_def newMetrics_def metrics_def parseInt_quotient_def
      parseInt_fraction_def)

section \<open>The error value\<close>

text \<open>
  C9: for every state, query and duration, \<open>onError\<close> produces the same state whatever
  error value it is given: the value is not stored and decides nothing.
\<close>

theorem onError_ignores_the_error_value:
  "onError N q d e1 s = onError N q d e2 s"
  by (simp add: onError_def)

end
